theory Spec2Isabelle
  imports Complex_Main
begin

section \<open>Invisisnake: the turn engine of \<open>src/components/Invisisnake.jsx\<close>\<close>

text \<open>
  The game is one React component. Its state variables (\<open>useState\<close>) are the fields of
  the record \<open>game\<close>. Every state variable has a shadow \<open>xRef\<close> that an effect copies
  from the state after each render, so at the moment an input handler starts, the
  closure's \<open>x\<close> and \<open>xRef.current\<close> both hold the rendered value. A call \<open>setX v\<close>
  only queues the new value: React applies the updates queued by one event handler
  together at the next render (automatic batching; for the click handlers of the D-pad
  this holds in every version of React), so neither \<open>x\<close> nor \<open>xRef.current\<close> changes
  while the handler runs. Hence every read inside one call of \<open>doStep\<close> sees the rendered snapshot
  (the argument \<open>cur\<close> below), and the writes are collected in a pending state, the
  field \<open>st\<close> of the record \<open>turn\<close>; for one state variable the last queued value wins.

  Sound cues (\<open>playMove\<close>, \<open>playWin\<close>, ...) are recorded in the list \<open>fx\<close>, in call
  order. \<open>Math.random()\<close> is a stream \<open>rnd\<close> of reals read at the counter \<open>draws\<close>.
  Particle bursts and the overlay timer only feed the renderer and are left out.
\<close>

subsection \<open>Data\<close>

type_synonym cell = "int \<times> int"

datatype direction = UP | DOWN | LEFT | RIGHT

fun dirX :: "direction \<Rightarrow> int" where
  "dirX UP = 0"
| "dirX DOWN = 0"
| "dirX LEFT = -1"
| "dirX RIGHT = 1"

fun dirY :: "direction \<Rightarrow> int" where
  "dirY UP = -1"
| "dirY DOWN = 1"
| "dirY LEFT = 0"
| "dirY RIGHT = 0"

record powerup =
  px :: int
  py :: int
  ttl :: int

datatype overlay = Retry | Reset | Win

datatype cue = PlayMove | PlayFruit | PlayWin | PlayLifeLost | PlayGameOver | PlayPickupSweep

datatype error = TypeError

record game =
  level :: int
  cols :: int
  rows :: int
  selectedLevel :: int
  selectedLevelInput :: string
  lives :: int
  snake :: "cell list"
  dir :: direction
  fruit :: "cell option"
  score :: int
  gameOver :: bool
  won :: bool
  crashPos :: "cell option"
  showOverlay :: bool
  overlayMode :: "overlay option"
  powerUp :: "powerup option"
  revealTurns :: int
  hazards :: "cell list"

text \<open>The working data of one call of \<open>doStep\<close>: the pending state, the cues played, the
  number of random draws taken, and the locals \<open>newSnake\<close>, \<open>nextFruitPos\<close> and
  \<open>pickedUpThisStep\<close>.\<close>

record turn =
  st :: game
  fx :: "cue list"
  draws :: nat
  newSnake :: "cell list"
  nextFruitPos :: "cell option"
  pickedUpThisStep :: bool

subsection \<open>Constants and small helpers\<close>

definition POWERUP_MIN_LEVEL :: int where "POWERUP_MIN_LEVEL = 2"
definition POWERUP_CHANCE_PER_TURN :: real where "POWERUP_CHANCE_PER_TURN = 0.25"
definition HAZARD_MIN_LEVEL :: int where "HAZARD_MIN_LEVEL = 3"
definition HAZARD_CHANCE_PER_TURN :: real where "HAZARD_CHANCE_PER_TURN = 0.12"

definition isOpposite :: "direction \<Rightarrow> direction \<Rightarrow> bool" where
  "isOpposite a b \<longleftrightarrow> dirX a + dirX b = 0 \<and> dirY a + dirY b = 0"

definition posEq :: "cell \<Rightarrow> cell \<Rightarrow> bool" where
  "posEq a b \<longleftrightarrow> fst a = fst b \<and> snd a = snd b"

definition sizeForLevel :: "int \<Rightarrow> int" where
  "sizeForLevel lvl = max 3 (2 + lvl)"

definition wrapCoord :: "int \<Rightarrow> int \<Rightarrow> int" where
  "wrapCoord v mx = (if v < 0 then mx - 1 else if v \<ge> mx then 0 else v)"

text \<open>\<open>Math.hypot\<close> on two integers, over the reals.\<close>

definition hypot :: "int \<Rightarrow> int \<Rightarrow> real" where
  "hypot a b = sqrt (of_int (a * a + b * b))"

subsection \<open>The set of occupied keys\<close>

text \<open>
  The source keeps occupied cells in a JS \<open>Set\<close> of the strings \<open>`${x},${y}`\<close>. The key
  of a cell of integers determines the cell, so the model keeps the cells themselves,
  in insertion order and without duplicates as a JS \<open>Set\<close> does; \<open>size\<close> is the length.
\<close>

definition setAdd :: "cell list \<Rightarrow> cell \<Rightarrow> cell list" where
  "setAdd s c = (if c \<in> set s then s else s @ [c])"

definition newSet :: "cell list \<Rightarrow> cell list" where
  "newSet xs = foldl setAdd [] xs"

subsection \<open>placeFreeCell\<close>

text \<open>The 128 random attempts; \<open>n\<close> counts the attempts that remain, \<open>k\<close> the draws taken.\<close>

fun tryRandom :: "(nat \<Rightarrow> real) \<Rightarrow> cell list \<Rightarrow> int \<Rightarrow> int \<Rightarrow> nat \<Rightarrow> nat \<Rightarrow> cell option \<times> nat" where
  "tryRandom rnd excludedSet c r 0 k = (None, k)"
| "tryRandom rnd excludedSet c r (Suc n) k =
     (let x = \<lfloor>rnd k * of_int c\<rfloor>;
          y = \<lfloor>rnd (k + 1) * of_int r\<rfloor>
      in if (x, y) \<notin> set excludedSet then (Some (x, y), k + 2)
         else tryRandom rnd excludedSet c r n (k + 2))"

text \<open>The row-major scan for the first free cell.\<close>

definition scanCells :: "int \<Rightarrow> int \<Rightarrow> cell list" where
  "scanCells c r = concat (map (\<lambda>y. map (\<lambda>x. (x, y)) [0..c - 1]) [0..r - 1])"

definition placeFreeCell :: "(nat \<Rightarrow> real) \<Rightarrow> cell list \<Rightarrow> int \<Rightarrow> int \<Rightarrow> nat \<Rightarrow> cell option \<times> nat" where
  "placeFreeCell rnd excludedSet c r k =
     (let total = c * r in
      if int (length excludedSet) \<ge> total then (None, k)
      else case tryRandom rnd excludedSet c r 128 k of
             (Some p, k') \<Rightarrow> (Some p, k')
           | (None, k') \<Rightarrow> (find (\<lambda>p. p \<notin> set excludedSet) (scanCells c r), k'))"

subsection \<open>Spawns\<close>

definition maybeSpawnPowerUp ::
  "(nat \<Rightarrow> real) \<Rightarrow> game \<Rightarrow> cell \<Rightarrow> cell list \<Rightarrow> int \<Rightarrow> int \<Rightarrow> bool \<Rightarrow> turn \<Rightarrow> turn" where
  "maybeSpawnPowerUp rnd cur head currentSnake c r block t =
     (if block then t
      else if level cur < POWERUP_MIN_LEVEL then t
      else if powerUp cur \<noteq> None then t
      else if revealTurns cur > 0 then t
      else if int (length currentSnake) < 10 then t
      else
        let t1 = t\<lparr>draws := draws t + 1\<rparr> in
        if rnd (draws t) > POWERUP_CHANCE_PER_TURN then t1
        else
          let occ0 = newSet currentSnake;
              occ1 = (case fruit cur of Some f \<Rightarrow> setAdd occ0 f | None \<Rightarrow> occ0);
              occ = foldl setAdd occ1 (hazards cur);
              (pos, k) = placeFreeCell rnd occ c r (draws t1);
              t2 = t1\<lparr>draws := k\<rparr>
          in case pos of
               None \<Rightarrow> t2
             | Some p \<Rightarrow>
                 let ttl0 = max 1 (\<lceil>hypot (fst p - fst head) (snd p - snd head)\<rceil> + 3)
                 in t2\<lparr>st := (st t2)\<lparr>powerUp := Some \<lparr>px = fst p, py = snd p, ttl = ttl0\<rparr>\<rparr>\<rparr>)"

definition maybeSpawnHazard ::
  "(nat \<Rightarrow> real) \<Rightarrow> game \<Rightarrow> cell \<Rightarrow> cell list \<Rightarrow> int \<Rightarrow> int \<Rightarrow> turn \<Rightarrow> turn" where
  "maybeSpawnHazard rnd cur head currentSnake c r t =
     (if level cur < HAZARD_MIN_LEVEL then t
      else
        let maxHazards = max 0 (level cur - 2) in
        if int (length (hazards cur)) \<ge> maxHazards then t
        else
          let t1 = t\<lparr>draws := draws t + 1\<rparr> in
          if rnd (draws t) > HAZARD_CHANCE_PER_TURN then t1
          else
            let occ0 = newSet currentSnake;
                occ1 = (case fruit cur of Some f \<Rightarrow> setAdd occ0 f | None \<Rightarrow> occ0);
                occ2 = (case powerUp cur of Some p \<Rightarrow> setAdd occ1 (px p, py p) | None \<Rightarrow> occ1);
                occ3 = foldl setAdd occ2 (hazards cur);
                occ = setAdd occ3 head;
                (pos, k) = placeFreeCell rnd occ c r (draws t1);
                t2 = t1\<lparr>draws := k\<rparr>
            in case pos of
                 None \<Rightarrow> t2
               | Some p \<Rightarrow> t2\<lparr>st := (st t2)\<lparr>hazards := hazards (st t2) @ [p]\<rparr>\<rparr>)"

subsection \<open>Life loss and win\<close>

definition loseLifeAt :: "game \<Rightarrow> cell \<Rightarrow> turn \<Rightarrow> turn" where
  "loseLifeAt cur cellPos t =
     (let remaining = max 0 (lives cur - 1);
          s1 = (st t)\<lparr>crashPos := Some cellPos, gameOver := True, showOverlay := False,
                      lives := remaining,
                      overlayMode := Some (if remaining > 0 then Retry else Reset)\<rparr>
      in if remaining > 0 then t\<lparr>st := s1, fx := fx t @ [PlayLifeLost]\<rparr>
         else t\<lparr>st := s1\<lparr>selectedLevel := 1, selectedLevelInput := ''1''\<rparr>,
                 fx := fx t @ [PlayGameOver]\<rparr>)"

text \<open>The guard reads \<open>wonRef.current\<close>, which is the rendered value of \<open>won\<close>.\<close>

definition triggerWin :: "game \<Rightarrow> turn \<Rightarrow> turn" where
  "triggerWin cur t =
     (if won cur then t
      else t\<lparr>st := (st t)\<lparr>won := True, showOverlay := False, overlayMode := Some Win\<rparr>,
              fx := fx t @ [PlayWin]\<rparr>)"

subsection \<open>One move step\<close>

text \<open>The blocks of \<open>doStep\<close> after the collision checks, in source order.\<close>

definition fruitPhase :: "(nat \<Rightarrow> real) \<Rightarrow> game \<Rightarrow> cell \<Rightarrow> turn \<Rightarrow> turn" where
  "fruitPhase rnd cur newHead t =
     (let ateFruit = (case fruit cur of None \<Rightarrow> False | Some f \<Rightarrow> posEq newHead f) in
      if \<not> ateFruit then t\<lparr>newSnake := butlast (newSnake t), fx := fx t @ [PlayMove]\<rparr>
      else
        let t1 = t\<lparr>fx := fx t @ [PlayFruit]\<rparr>;
            occ0 = newSet (newSnake t);
            occ1 = (case powerUp cur of Some p \<Rightarrow> setAdd occ0 (px p, py p) | None \<Rightarrow> occ0);
            occF = foldl setAdd occ1 (hazards cur);
            (nf, k) = placeFreeCell rnd occF (cols cur) (rows cur) (draws t1);
            t2 = t1\<lparr>draws := k\<rparr>;
            t3 = (case nf of
                    None \<Rightarrow> (triggerWin cur t2)\<lparr>nextFruitPos := None\<rparr>
                  | Some p \<Rightarrow> t2\<lparr>st := (st t2)\<lparr>fruit := Some p\<rparr>, nextFruitPos := Some p\<rparr>)
        in t3\<lparr>st := (st t3)\<lparr>score := score (st t3) + 1\<rparr>\<rparr>)"

definition pickupPhase :: "game \<Rightarrow> cell \<Rightarrow> turn \<Rightarrow> turn" where
  "pickupPhase cur newHead t =
     (case powerUp cur of
        None \<Rightarrow> t
      | Some p \<Rightarrow>
          if posEq newHead (px p, py p)
          then t\<lparr>pickedUpThisStep := True,
                 st := (st t)\<lparr>revealTurns := int (length (newSnake t)), powerUp := None\<rparr>,
                 fx := fx t @ [PlayPickupSweep]\<rparr>
          else t)"

definition countdownPhase :: "game \<Rightarrow> turn \<Rightarrow> turn" where
  "countdownPhase cur t =
     (let t1 = (case powerUp cur of
                  None \<Rightarrow> t
                | Some p \<Rightarrow>
                    let nextTTL = ttl p - 1 in
                    if nextTTL \<le> 0 then t\<lparr>st := (st t)\<lparr>powerUp := None\<rparr>\<rparr>
                    else t\<lparr>st := (st t)\<lparr>powerUp := Some (p\<lparr>ttl := nextTTL\<rparr>)\<rparr>\<rparr>)
      in if revealTurns cur > 0
         then t1\<lparr>st := (st t1)\<lparr>revealTurns := revealTurns cur - 1\<rparr>\<rparr>
         else t1)"

definition winCheck :: "game \<Rightarrow> turn \<Rightarrow> turn" where
  "winCheck cur t =
     (let total = cols cur * rows cur;
          occ0 = newSet (newSnake t);
          occ1 = foldl setAdd occ0 (hazards cur);
          occ2 = (case nextFruitPos t of Some f \<Rightarrow> setAdd occ1 f | None \<Rightarrow> occ1);
          occ = (case powerUp cur of Some p \<Rightarrow> setAdd occ2 (px p, py p) | None \<Rightarrow> occ2);
          empties = total - int (length occ);
          threshold = \<lceil>of_int total * (0.15 :: real)\<rceil>
      in if empties < threshold then triggerWin cur t else t)"

definition advance :: "(nat \<Rightarrow> real) \<Rightarrow> direction \<Rightarrow> game \<Rightarrow> cell \<Rightarrow> turn" where
  "advance rnd nextDir cur newHead =
     (let t0 = \<lparr>st = cur, fx = [], draws = 0, newSnake = newHead # snake cur,
                nextFruitPos = fruit cur, pickedUpThisStep = False\<rparr>;
          t1 = fruitPhase rnd cur newHead t0;
          t2 = pickupPhase cur newHead t1;
          t3 = countdownPhase cur t2;
          t4 = winCheck cur t3;
          t5 = maybeSpawnPowerUp rnd cur newHead (newSnake t4) (cols cur) (rows cur)
                 (pickedUpThisStep t4) t4;
          t6 = maybeSpawnHazard rnd cur newHead (newSnake t5) (cols cur) (rows cur) t5
      in t6\<lparr>st := (st t6)\<lparr>snake := newSnake t6, dir := nextDir\<rparr>\<rparr>)"

text \<open>The head the step moves to: \<open>head + nextDir\<close>, wrapped in each axis.\<close>

definition newHeadOf :: "direction \<Rightarrow> game \<Rightarrow> cell \<Rightarrow> cell" where
  "newHeadOf nextDir cur head =
     (wrapCoord (fst head + dirX nextDir) (cols cur),
      wrapCoord (snd head + dirY nextDir) (rows cur))"

text \<open>\<open>doStep\<close> returns the next state and the cues played. Reading \<open>head.x\<close> of an empty
  snake throws before anything is queued.\<close>

definition doStep :: "(nat \<Rightarrow> real) \<Rightarrow> direction \<Rightarrow> game \<Rightarrow> error + game \<times> cue list" where
  "doStep rnd nextDir cur =
     (if gameOver cur \<or> won cur then Inr (cur, [])
      else if length (snake cur) > 1 \<and> isOpposite nextDir (dir cur) then Inr (cur, [])
      else case snake cur of
             [] \<Rightarrow> Inl TypeError
           | head # _ \<Rightarrow>
               let newHead = newHeadOf nextDir cur head;
                   t0 = \<lparr>st = cur, fx = [], draws = 0, newSnake = snake cur,
                         nextFruitPos = fruit cur, pickedUpThisStep = False\<rparr>
               in if list_ex (\<lambda>h. posEq h newHead) (hazards cur)
                  then (let t = loseLifeAt cur newHead t0 in Inr (st t, fx t))
                  else if list_ex (\<lambda>s. posEq s newHead) (snake cur)
                  then (let t = loseLifeAt cur newHead t0 in Inr (st t, fx t))
                  else (let t = advance rnd nextDir cur newHead in Inr (st t, fx t)))"

subsection \<open>Notions used by the properties\<close>

text \<open>The cell a power-up covers, and the value the countdown block queues for it.\<close>

definition cellOf :: "powerup option \<Rightarrow> cell set" where
  "cellOf pw = (case pw of None \<Rightarrow> {} | Some p \<Rightarrow> {(px p, py p)})"

definition afterDecay :: "powerup option \<Rightarrow> powerup option" where
  "afterDecay pw =
     (case pw of
        None \<Rightarrow> None
      | Some p \<Rightarrow> if ttl p - 1 \<le> 0 then None else Some (p\<lparr>ttl := ttl p - 1\<rparr>))"

subsection \<open>Concrete boards and random streams\<close>

definition rnd0 :: "nat \<Rightarrow> real" where
  "rnd0 = (\<lambda>_. 0)"

definition rndHalf :: "nat \<Rightarrow> real" where
  "rndHalf = (\<lambda>_. 1 / 2)"

text \<open>A fresh board of level 3: 5 by 5, the snake on the centre cell.\<close>

definition startL3 :: game where
  "startL3 = \<lparr>level = 3, cols = 5, rows = 5, selectedLevel = 3, selectedLevelInput = ''3'',
     lives = 3, snake = [(2, 2)], dir = RIGHT, fruit = Some (0, 0), score = 0,
     gameOver = False, won = False, crashPos = None, showOverlay = False,
     overlayMode = None, powerUp = None, revealTurns = 0, hazards = []\<rparr>"

text \<open>The board of level 1 (3 by 3) with the snake on the cell \<open>(2, 2)\<close>.\<close>

definition level1At22 :: game where
  "level1At22 = \<lparr>level = 1, cols = sizeForLevel 1, rows = sizeForLevel 1, selectedLevel = 1,
     selectedLevelInput = ''1'',
     lives = 3, snake = [(2, 2)], dir = RIGHT, fruit = Some (0, 0), score = 0,
     gameOver = False, won = False, crashPos = None, showOverlay = False,
     overlayMode = None, powerUp = None, revealTurns = 0, hazards = []\<rparr>"

text \<open>A snake of length 2 heading down, its neck right above the head.\<close>

definition neckState :: game where
  "neckState = \<lparr>level = 1, cols = 3, rows = 3, selectedLevel = 1, selectedLevelInput = ''1'',
     lives = 3, snake = [(1, 1), (1, 0)], dir = DOWN, fruit = Some (2, 2), score = 1,
     gameOver = False, won = False, crashPos = None, showOverlay = False,
     overlayMode = None, powerUp = None, revealTurns = 0, hazards = []\<rparr>"

text \<open>A hazard on \<open>(2, 2)\<close>, right of the head.\<close>

definition hazardState :: game where
  "hazardState = \<lparr>level = 3, cols = 5, rows = 5, selectedLevel = 3, selectedLevelInput = ''3'',
     lives = 3, snake = [(1, 2)], dir = RIGHT, fruit = Some (0, 0), score = 0,
     gameOver = False, won = False, crashPos = None, showOverlay = False,
     overlayMode = None, powerUp = None, revealTurns = 0, hazards = [(2, 2)]\<rparr>"


text \<open>Level 1 with six cells of snake and the fruit right below the head.\<close>

definition lastFruit :: game where
  "lastFruit = \<lparr>level = 1, cols = 3, rows = 3, selectedLevel = 1, selectedLevelInput = ''1'',
     lives = 3, snake = [(0, 1), (0, 0), (1, 0), (2, 0), (2, 1), (2, 2)],
     dir = DOWN, fruit = Some (0, 2), score = 5,
     gameOver = False, won = False, crashPos = None, showOverlay = False,
     overlayMode = None, powerUp = None, revealTurns = 0, hazards = []\<rparr>"

text \<open>Level 2 (4 by 4), a snake of length 10, and a power-up that spawned one cell right
  of the head on the turn before (\<open>ttl = 1 + 3\<close>).\<close>

definition pickupState :: game where
  "pickupState = \<lparr>level = 2, cols = 4, rows = 4, selectedLevel = 2, selectedLevelInput = ''2'',
     lives = 3,
     snake = [(1, 1), (0, 1), (0, 0), (1, 0), (2, 0), (3, 0), (3, 1), (3, 2), (3, 3), (2, 3)],
     dir = RIGHT, fruit = Some (0, 3), score = 9,
     gameOver = False, won = False, crashPos = None, showOverlay = False,
     overlayMode = None, powerUp = Some \<lparr>px = 2, py = 1, ttl = 4\<rparr>, revealTurns = 0,
     hazards = []\<rparr>"

text \<open>Level 2, a snake of length 10 heading left, no power-up on the board.\<close>

definition spawnState :: game where
  "spawnState = \<lparr>level = 2, cols = 4, rows = 4, selectedLevel = 2, selectedLevelInput = ''2'',
     lives = 3,
     snake = [(2, 0), (3, 0), (3, 1), (2, 1), (1, 1), (0, 1), (0, 2), (1, 2), (2, 2), (3, 2)],
     dir = LEFT, fruit = Some (3, 3), score = 9,
     gameOver = False, won = False, crashPos = None, showOverlay = False,
     overlayMode = None, powerUp = None, revealTurns = 0, hazards = []\<rparr>"

section \<open>Auxiliary facts\<close>

subsection \<open>Cells, key sets and free-cell placement\<close>

lemma posEq_iff [simp]: "posEq a b \<longleftrightarrow> a = b"
  by (auto simp: posEq_def prod_eq_iff)

lemma list_ex_eq [simp]: "list_ex (\<lambda>h. h = c) xs \<longleftrightarrow> c \<in> set xs"
  by (auto simp: list_ex_iff)

lemma set_setAdd [simp]: "set (setAdd s c) = insert c (set s)"
  by (auto simp: setAdd_def)

lemma distinct_setAdd [simp]: "distinct (setAdd s c) = distinct s"
  by (auto simp: setAdd_def)

lemma set_foldl_setAdd [simp]: "set (foldl setAdd s xs) = set s \<union> set xs"
  by (induction xs arbitrary: s) auto

lemma distinct_foldl_setAdd [simp]: "distinct (foldl setAdd s xs) = distinct s"
  by (induction xs arbitrary: s) auto

lemma set_newSet [simp]: "set (newSet xs) = set xs"
  by (simp add: newSet_def)

lemma distinct_newSet [simp]: "distinct (newSet xs)"
  by (simp add: newSet_def)

lemma finite_cellOf [simp]: "finite (cellOf pw)"
  by (simp add: cellOf_def split: option.splits)

lemma cellOf_afterDecay: "cellOf (afterDecay pw) \<subseteq> cellOf pw"
  by (auto simp: cellOf_def afterDecay_def split: option.splits if_splits)



lemma tryRandom_numeral:
  "tryRandom rnd ex c r (numeral n) k =
     (let x = \<lfloor>rnd k * of_int c\<rfloor>; y = \<lfloor>rnd (k + 1) * of_int r\<rfloor>
      in if (x, y) \<notin> set ex then (Some (x, y), k + 2)
         else tryRandom rnd ex c r (pred_numeral n) (k + 2))"
  by (simp add: numeral_eq_Suc)

lemma tryRandom_Some:
  "tryRandom rnd ex c r n k = (Some p, k') \<Longrightarrow> p \<notin> set ex"
  by (induction n arbitrary: k) (auto simp: Let_def split: if_splits)

text \<open>A cell that \<open>placeFreeCell\<close> returns is not in the excluded set.\<close>

lemma placeFreeCell_Some:
  assumes "placeFreeCell rnd ex c r k = (Some p, k')"
  shows "p \<notin> set ex"
  using assms
  by (auto simp: placeFreeCell_def Let_def find_Some_iff
      split: if_splits prod.splits option.splits dest: tryRandom_Some)


lemma wrapCoord_mod:
  assumes "0 \<le> v" "v < m" "d \<in> {-1, 0, 1}"
  shows "wrapCoord (v + d) m = (v + d) mod m"
proof -
  consider "v + d = -1" | "v + d = m" | "0 \<le> v + d" "v + d < m"
    using assms by (elim insertE; simp; linarith)
  then show ?thesis
  proof cases
    case 1
    have "(-1) mod m = m - 1" using assms by (simp add: zmod_minus1)
    with 1 show ?thesis by (simp add: wrapCoord_def)
  next
    case 2
    with assms show ?thesis by (simp add: wrapCoord_def)
  next
    case 3
    then show ?thesis by (simp add: wrapCoord_def)
  qed
qed

lemma hypot_ge_1:
  assumes "(a, b) \<noteq> (0, 0)"
  shows "1 \<le> hypot a b"
proof -
  have "a \<noteq> 0 \<or> b \<noteq> 0" using assms by simp
  then have "0 < a * a + b * b"
    by (metis add_pos_nonneg add_nonneg_pos not_real_square_gt_zero zero_le_square
        mult_eq_0_iff less_le)
  then have "1 \<le> a * a + b * b" by linarith
  then have "(1::real) \<le> of_int (a * a + b * b)" by linarith
  then have "sqrt 1 \<le> sqrt (of_int (a * a + b * b))"
    by (rule real_sqrt_le_mono)
  then show ?thesis by (simp add: hypot_def)
qed

subsection \<open>What each block of the step leaves alone\<close>

lemma triggerWin_frame [simp]:
  "newSnake (triggerWin cur t) = newSnake t"
  "draws (triggerWin cur t) = draws t"
  "nextFruitPos (triggerWin cur t) = nextFruitPos t"
  "pickedUpThisStep (triggerWin cur t) = pickedUpThisStep t"
  "snake (st (triggerWin cur t)) = snake (st t)"
  "fruit (st (triggerWin cur t)) = fruit (st t)"
  "score (st (triggerWin cur t)) = score (st t)"
  "powerUp (st (triggerWin cur t)) = powerUp (st t)"
  "hazards (st (triggerWin cur t)) = hazards (st t)"
  "revealTurns (st (triggerWin cur t)) = revealTurns (st t)"
  "gameOver (st (triggerWin cur t)) = gameOver (st t)"
  by (simp_all add: triggerWin_def)

lemma fruitPhase_frame [simp]:
  "powerUp (st (fruitPhase rnd cur nh t)) = powerUp (st t)"
  "hazards (st (fruitPhase rnd cur nh t)) = hazards (st t)"
  "revealTurns (st (fruitPhase rnd cur nh t)) = revealTurns (st t)"
  "pickedUpThisStep (fruitPhase rnd cur nh t) = pickedUpThisStep t"
  by (auto simp: fruitPhase_def Let_def split: option.splits prod.splits)

lemma fruitPhase_newSnake:
  "newSnake (fruitPhase rnd cur nh t) =
     (if fruit cur = Some nh then newSnake t else butlast (newSnake t))"
  by (auto simp: fruitPhase_def Let_def split: option.splits prod.splits)

lemma fruitPhase_score:
  "score (st (fruitPhase rnd cur nh t)) =
     (if fruit cur = Some nh then score (st t) + 1 else score (st t))"
  by (auto simp: fruitPhase_def Let_def split: option.splits prod.splits)

lemma pickupPhase_frame [simp]:
  "newSnake (pickupPhase cur nh t) = newSnake t"
  "score (st (pickupPhase cur nh t)) = score (st t)"
  "fruit (st (pickupPhase cur nh t)) = fruit (st t)"
  "won (st (pickupPhase cur nh t)) = won (st t)"
  "hazards (st (pickupPhase cur nh t)) = hazards (st t)"
  "nextFruitPos (pickupPhase cur nh t) = nextFruitPos t"
  "draws (pickupPhase cur nh t) = draws t"
  by (simp_all add: pickupPhase_def split: option.splits)

lemma countdownPhase_frame [simp]:
  "newSnake (countdownPhase cur t) = newSnake t"
  "score (st (countdownPhase cur t)) = score (st t)"
  "fruit (st (countdownPhase cur t)) = fruit (st t)"
  "won (st (countdownPhase cur t)) = won (st t)"
  "hazards (st (countdownPhase cur t)) = hazards (st t)"
  "nextFruitPos (countdownPhase cur t) = nextFruitPos t"
  "pickedUpThisStep (countdownPhase cur t) = pickedUpThisStep t"
  "fx (countdownPhase cur t) = fx t"
  "draws (countdownPhase cur t) = draws t"
  by (simp_all add: countdownPhase_def Let_def split: option.splits)

lemma winCheck_frame [simp]:
  "newSnake (winCheck cur t) = newSnake t"
  "score (st (winCheck cur t)) = score (st t)"
  "fruit (st (winCheck cur t)) = fruit (st t)"
  "powerUp (st (winCheck cur t)) = powerUp (st t)"
  "hazards (st (winCheck cur t)) = hazards (st t)"
  "revealTurns (st (winCheck cur t)) = revealTurns (st t)"
  "nextFruitPos (winCheck cur t) = nextFruitPos t"
  "pickedUpThisStep (winCheck cur t) = pickedUpThisStep t"
  "draws (winCheck cur t) = draws t"
  by (simp_all add: winCheck_def Let_def)

lemma maybeSpawnPowerUp_frame [simp]:
  "newSnake (maybeSpawnPowerUp rnd cur h s c r b t) = newSnake t"
  "score (st (maybeSpawnPowerUp rnd cur h s c r b t)) = score (st t)"
  "fruit (st (maybeSpawnPowerUp rnd cur h s c r b t)) = fruit (st t)"
  "won (st (maybeSpawnPowerUp rnd cur h s c r b t)) = won (st t)"
  "hazards (st (maybeSpawnPowerUp rnd cur h s c r b t)) = hazards (st t)"
  "revealTurns (st (maybeSpawnPowerUp rnd cur h s c r b t)) = revealTurns (st t)"
  "fx (maybeSpawnPowerUp rnd cur h s c r b t) = fx t"
  by (simp_all add: maybeSpawnPowerUp_def Let_def split: option.splits prod.splits)

lemma maybeSpawnHazard_frame [simp]:
  "newSnake (maybeSpawnHazard rnd cur h s c r t) = newSnake t"
  "score (st (maybeSpawnHazard rnd cur h s c r t)) = score (st t)"
  "fruit (st (maybeSpawnHazard rnd cur h s c r t)) = fruit (st t)"
  "won (st (maybeSpawnHazard rnd cur h s c r t)) = won (st t)"
  "powerUp (st (maybeSpawnHazard rnd cur h s c r t)) = powerUp (st t)"
  "revealTurns (st (maybeSpawnHazard rnd cur h s c r t)) = revealTurns (st t)"
  "fx (maybeSpawnHazard rnd cur h s c r t) = fx t"
  by (simp_all add: maybeSpawnHazard_def Let_def split: option.splits prod.splits)

subsection \<open>The pending power-up\<close>

lemma countdown_powerUp:
  "powerUp (st (countdownPhase cur t)) =
     (case powerUp cur of None \<Rightarrow> powerUp (st t) | Some p \<Rightarrow> afterDecay (Some p))"
  by (simp add: countdownPhase_def afterDecay_def Let_def split: option.splits)

lemma pickup_powerUp_None:
  "powerUp cur = None \<Longrightarrow> powerUp (st (pickupPhase cur nh t)) = powerUp (st t)"
  by (simp add: pickupPhase_def)

lemma countdown_reveal:
  "revealTurns (st (countdownPhase cur t)) =
     (if revealTurns cur > 0 then revealTurns cur - 1 else revealTurns (st t))"
  by (simp add: countdownPhase_def Let_def split: option.splits)

lemma pickup_reveal:
  "powerUp cur = Some p \<Longrightarrow> (px p, py p) = nh \<Longrightarrow>
   revealTurns (st (pickupPhase cur nh t)) = int (length (newSnake t)) \<and>
   fx (pickupPhase cur nh t) = fx t @ [PlayPickupSweep]"
  by (auto simp: pickupPhase_def)

lemma spawnPowerUp_blocked:
  "b \<or> powerUp cur \<noteq> None \<Longrightarrow> maybeSpawnPowerUp rnd cur h s c r b t = t"
  by (auto simp: maybeSpawnPowerUp_def)

lemma spawn_ttl:
  assumes "powerUp (st t) = None"
    and "powerUp (st (maybeSpawnPowerUp rnd cur head s c r b t)) = Some p"
  shows "(px p, py p) \<notin> set s \<and>
         ttl p = max 1 (\<lceil>hypot (px p - fst head) (py p - snd head)\<rceil> + 3)"
  using assms
  by (auto simp: maybeSpawnPowerUp_def Let_def
      split: if_splits option.splits prod.splits dest!: placeFreeCell_Some)

subsection \<open>Win flag and win cue\<close>

lemma winCheck_won_mono: "won (st t) \<Longrightarrow> won (st (winCheck cur t))"
  by (simp add: winCheck_def Let_def triggerWin_def)

lemma pickupPhase_fx_mono: "c \<in> set (fx t) \<Longrightarrow> c \<in> set (fx (pickupPhase cur nh t))"
  by (simp add: pickupPhase_def split: option.splits)

lemma winCheck_fx_mono: "c \<in> set (fx t) \<Longrightarrow> c \<in> set (fx (winCheck cur t))"
  by (simp add: winCheck_def Let_def triggerWin_def)

lemma winCheck_triggers:
  assumes "\<not> won cur"
    and "cols cur * rows cur
           - int (card (set (newSnake t) \<union> set (hazards cur) \<union> set_option (nextFruitPos t)
                         \<union> cellOf (powerUp cur)))
         < \<lceil>of_int (cols cur * rows cur) * (0.15 :: real)\<rceil>"
  shows "won (st (winCheck cur t)) \<and> PlayWin \<in> set (fx (winCheck cur t))"
proof -
  define occ where "occ =
    (case powerUp cur of
       Some p \<Rightarrow> setAdd (case nextFruitPos t of
                   Some f \<Rightarrow> setAdd (foldl setAdd (newSet (newSnake t)) (hazards cur)) f
                 | None \<Rightarrow> foldl setAdd (newSet (newSnake t)) (hazards cur)) (px p, py p)
     | None \<Rightarrow> (case nextFruitPos t of
                   Some f \<Rightarrow> setAdd (foldl setAdd (newSet (newSnake t)) (hazards cur)) f
                 | None \<Rightarrow> foldl setAdd (newSet (newSnake t)) (hazards cur)))"
  have d: "distinct occ" by (simp add: occ_def split: option.splits)
  have s: "set occ = set (newSnake t) \<union> set (hazards cur) \<union> set_option (nextFruitPos t)
                       \<union> cellOf (powerUp cur)"
    by (auto simp: occ_def cellOf_def split: option.splits)
  have "length occ = card (set occ)" using d by (simp add: distinct_card)
  with assms(2) s
  have "cols cur * rows cur - int (length occ) < \<lceil>of_int (cols cur * rows cur) * (0.15 :: real)\<rceil>"
    by simp
  then have "winCheck cur t = triggerWin cur t"
    by (simp add: winCheck_def Let_def occ_def)
  then show ?thesis using assms(1) by (simp add: triggerWin_def)
qed

subsection \<open>The fruit block\<close>

lemma fruitPhase_next:
  assumes "nextFruitPos t = fruit (st t)" "\<not> won cur"
  shows "nextFruitPos (fruitPhase rnd cur nh t) = fruit (st (fruitPhase rnd cur nh t)) \<or>
         won (st (fruitPhase rnd cur nh t)) \<and> PlayWin \<in> set (fx (fruitPhase rnd cur nh t))"
  using assms
  by (auto simp: fruitPhase_def Let_def triggerWin_def split: option.splits prod.splits)


subsection \<open>The whole non-lethal step\<close>

lemma advance_snake:
  "snake (st (advance rnd nd cur nh)) =
     (if fruit cur = Some nh then nh # snake cur else butlast (nh # snake cur))"
  by (simp add: advance_def Let_def fruitPhase_newSnake)

lemma advance_dir: "dir (st (advance rnd nd cur nh)) = nd"
  by (simp add: advance_def Let_def)

lemma advance_score:
  "score (st (advance rnd nd cur nh)) =
     (if fruit cur = Some nh then score cur + 1 else score cur)"
  by (simp add: advance_def Let_def fruitPhase_score)



text \<open>The three ways a call of \<open>doStep\<close> can return.\<close>

lemma doStep_cases:
  assumes "doStep rnd nd g = Inr (g', e)"
  obtains (ignored) "g' = g" "e = []"
  | (died) h rest where "snake g = h # rest" "\<not> gameOver g" "\<not> won g"
      "newHeadOf nd g h \<in> set (hazards g) \<or> newHeadOf nd g h \<in> set (snake g)"
      "g' = st (loseLifeAt g (newHeadOf nd g h) \<lparr>st = g, fx = [], draws = 0,
          newSnake = snake g, nextFruitPos = fruit g, pickedUpThisStep = False\<rparr>)"
  | (moved) h rest where "snake g = h # rest" "\<not> gameOver g" "\<not> won g"
      "newHeadOf nd g h \<notin> set (hazards g)" "newHeadOf nd g h \<notin> set (snake g)"
      "g' = st (advance rnd nd g (newHeadOf nd g h))"
      "e = fx (advance rnd nd g (newHeadOf nd g h))"
proof (cases "gameOver g \<or> won g \<or> (length (snake g) > 1 \<and> isOpposite nd (dir g))")
  case True
  then have "doStep rnd nd g = Inr (g, [])" by (auto simp: doStep_def)
  with assms show ?thesis by (intro ignored) simp_all
next
  case False
  then have nt: "\<not> gameOver g" "\<not> won g"
    and gate: "\<not> (length (snake g) > 1 \<and> isOpposite nd (dir g))" by blast+
  show ?thesis
  proof (cases "snake g")
    case Nil
    with nt have "doStep rnd nd g = Inl TypeError" by (simp add: doStep_def)
    with assms show ?thesis by simp
  next
    case (Cons h rest)
    show ?thesis
    proof (cases "newHeadOf nd g h \<in> set (hazards g) \<or> newHeadOf nd g h \<in> set (snake g)")
      case True
      define t where "t = loseLifeAt g (newHeadOf nd g h) \<lparr>st = g, fx = [], draws = 0,
          newSnake = snake g, nextFruitPos = fruit g, pickedUpThisStep = False\<rparr>"
      from nt gate Cons True have "doStep rnd nd g = Inr (st t, fx t)"
        by (auto simp: doStep_def Let_def t_def)
      with assms have "g' = st t" by simp
      with Cons nt True show ?thesis unfolding t_def by (intro died)
    next
      case False
      define t where "t = advance rnd nd g (newHeadOf nd g h)"
      from nt gate Cons False have "doStep rnd nd g = Inr (st t, fx t)"
        by (auto simp: doStep_def Let_def t_def)
      with assms have "g' = st t" and "e = fx t" by simp_all
      with Cons nt False show ?thesis unfolding t_def by (intro moved) auto
    qed
  qed
qed

lemmas step_defs = doStep_def advance_def fruitPhase_def pickupPhase_def countdownPhase_def
  winCheck_def maybeSpawnPowerUp_def maybeSpawnHazard_def triggerWin_def loseLifeAt_def
  newHeadOf_def wrapCoord_def isOpposite_def placeFreeCell_def newSet_def setAdd_def
  POWERUP_MIN_LEVEL_def HAZARD_MIN_LEVEL_def POWERUP_CHANCE_PER_TURN_def
  HAZARD_CHANCE_PER_TURN_def Let_def

section \<open>Properties of the turn engine\<close>

subsection \<open>Wrapping\<close>

text \<open>
  C8. For a head inside the board and any of the four directions, the new head
  \<open>wrap (head + heading)\<close> lies inside the board in each axis and is
  \<open>(head + heading) mod size\<close> in each axis on its own: leaving through one edge enters
  at the opposite edge, the other coordinate unchanged.
\<close>

theorem newHead_wraps:
  assumes "0 \<le> fst head" "fst head < cols cur" "0 \<le> snd head" "snd head < rows cur"
  shows "0 \<le> fst (newHeadOf d cur head) \<and> fst (newHeadOf d cur head) < cols cur \<and>
         0 \<le> snd (newHeadOf d cur head) \<and> snd (newHeadOf d cur head) < rows cur \<and>
         fst (newHeadOf d cur head) = (fst head + dirX d) mod cols cur \<and>
         snd (newHeadOf d cur head) = (snd head + dirY d) mod rows cur"
proof -
  have dx: "dirX d \<in> {-1, 0, 1}" and dy: "dirY d \<in> {-1, 0, 1}" by (cases d; simp)+
  have x: "wrapCoord (fst head + dirX d) (cols cur) = (fst head + dirX d) mod cols cur"
    using assms dx by (intro wrapCoord_mod) auto
  have y: "wrapCoord (snd head + dirY d) (rows cur) = (snd head + dirY d) mod rows cur"
    using assms dy by (intro wrapCoord_mod) auto
  from assms have "0 < cols cur" "0 < rows cur" by linarith+
  then show ?thesis by (simp add: newHeadOf_def x y)
qed

theorem newHead_wraps_witness:
  "(0::int) \<le> fst (4, 2) \<and> fst (4, 2) < cols startL3 \<and>
   (0::int) \<le> snd (4, 2) \<and> snd (4, 2) < rows startL3 \<and>
   newHeadOf RIGHT startL3 (4, 2) = (0, 2) \<and>
   fst (newHeadOf RIGHT startL3 (4, 2)) = (fst (4, 2) + dirX RIGHT) mod cols startL3"
  using newHead_wraps [of "(4, 2)" startL3 RIGHT]
  by (simp add: startL3_def prod_eq_iff)

subsection \<open>Lethal collisions\<close>

text \<open>
  C1 (as amended). In a non-terminal state, for a request that passes the direction
  gate: if the wrapped new head is a hazard cell or a cell of the snake before the move
  (the tail included), the step is a death. \<open>crashPos\<close> becomes the new head and
  \<open>gameOver\<close> is set, the snake is unchanged, \<open>lives\<close> becomes \<open>max 0 (lives - 1)\<close>, and
  the one cue played is the life-lost or the game-over jingle. The hazard test comes
  first in the source; both tests end in the same call \<open>loseLifeAt newHead\<close>.
\<close>

theorem lethal_collision_dies:
  assumes "\<not> gameOver g" "\<not> won g"
    and "\<not> (length (snake g) > 1 \<and> isOpposite nd (dir g))"
    and "snake g = h # rest"
    and "newHeadOf nd g h \<in> set (hazards g) \<or> newHeadOf nd g h \<in> set (snake g)"
  shows "\<exists>g' e. doStep rnd nd g = Inr (g', e) \<and> gameOver g' \<and>
           crashPos g' = Some (newHeadOf nd g h) \<and> snake g' = snake g \<and>
           lives g' = max 0 (lives g - 1) \<and>
           e = [if lives g - 1 > 0 then PlayLifeLost else PlayGameOver]"
  using assms by (auto simp: doStep_def Let_def loseLifeAt_def)

theorem lethal_collision_dies_witness:
  "snake hazardState = [(1, 2)] \<and> newHeadOf RIGHT hazardState (1, 2) = (2, 2) \<and>
   (2, 2) \<in> set (hazards hazardState) \<and>
   (\<exists>g' e. doStep rndHalf RIGHT hazardState = Inr (g', e) \<and> gameOver g' \<and>
      crashPos g' = Some (2, 2) \<and> snake g' = [(1, 2)] \<and> lives g' = 2 \<and> e = [PlayLifeLost])"
  using lethal_collision_dies [of hazardState RIGHT "(1, 2)" "[]" rndHalf]
  by (simp add: hazardState_def newHeadOf_def wrapCoord_def)

text \<open>
  The gate comes before the collision tests: a snake of length 2 heading down whose
  player asks for UP would put the head on its neck, and the step is ignored instead.
\<close>

theorem opposite_into_neck_ignored:
  "\<not> gameOver neckState \<and> \<not> won neckState \<and>
   newHeadOf UP neckState (1, 1) \<in> set (snake neckState) \<and>
   doStep rndHalf UP neckState = Inr (neckState, [])"
  by (simp add: neckState_def doStep_def isOpposite_def newHeadOf_def wrapCoord_def)

subsection \<open>Snake length\<close>

text \<open>
  C2. In a step that is neither rejected nor lethal, the snake keeps its length when the
  new head is not the fruit cell, and is exactly one longer when it is. The result
  determines the length in every such step, so nothing else in the step changes it.
\<close>

theorem snake_length_step:
  assumes "\<not> gameOver g" "\<not> won g"
    and "\<not> (length (snake g) > 1 \<and> isOpposite nd (dir g))"
    and "snake g = h # rest"
    and "newHeadOf nd g h \<notin> set (hazards g)"
    and "newHeadOf nd g h \<notin> set (snake g)"
  shows "\<exists>g' e. doStep rnd nd g = Inr (g', e) \<and>
           int (length (snake g')) =
             (if fruit g = Some (newHeadOf nd g h) then int (length (snake g)) + 1
              else int (length (snake g)))"
  using assms by (auto simp: doStep_def Let_def advance_snake)

theorem snake_length_step_witness:
  "snake startL3 = [(2, 2)] \<and> newHeadOf RIGHT startL3 (2, 2) = (3, 2) \<and>
   (\<exists>g' e. doStep rndHalf RIGHT startL3 = Inr (g', e) \<and> length (snake g') = 1)"
  using snake_length_step [of startL3 RIGHT "(2, 2)" "[]" rndHalf]
  by (simp add: startL3_def newHeadOf_def wrapCoord_def)

subsection \<open>The direction gate\<close>

text \<open>
  C3. With a snake longer than 1, a request for the exact opposite of the heading is a
  no-op: the state is returned as it was and no cue is played. With a snake of length 1
  the same request is accepted and the move runs as any other: it dies on a hazard (or
  on its own cell), and otherwise the head moves to the wrapped cell, the heading
  becomes the requested one, and the snake grows exactly when that cell held the fruit.
\<close>

theorem direction_gate:
  "(length (snake g) > 1 \<and> isOpposite nd (dir g) \<longrightarrow> doStep rnd nd g = Inr (g, [])) \<and>
   (snake g = [h] \<and> isOpposite nd (dir g) \<and> \<not> gameOver g \<and> \<not> won g \<longrightarrow>
      (\<exists>g' e. doStep rnd nd g = Inr (g', e) \<and>
         (if newHeadOf nd g h \<in> set (hazards g) \<or> newHeadOf nd g h = h
          then gameOver g' \<and> crashPos g' = Some (newHeadOf nd g h) \<and> snake g' = [h]
          else dir g' = nd \<and>
               snake g' = (if fruit g = Some (newHeadOf nd g h)
                           then [newHeadOf nd g h, h] else [newHeadOf nd g h]))))"
  by (auto simp: doStep_def Let_def loseLifeAt_def advance_snake advance_dir)

theorem direction_gate_witness:
  "length (snake neckState) > 1 \<and> isOpposite UP (dir neckState) \<and>
   doStep rndHalf UP neckState = Inr (neckState, []) \<and>
   snake startL3 = [(2, 2)] \<and> isOpposite LEFT (dir startL3) \<and>
   (\<exists>g' e. doStep rndHalf LEFT startL3 = Inr (g', e) \<and> dir g' = LEFT \<and> snake g' = [(1, 2)])"
  using direction_gate [where g = neckState and nd = UP and rnd = rndHalf]
    direction_gate [where g = startL3 and nd = LEFT and rnd = rndHalf and h = "(2, 2)"]
  by (simp add: neckState_def startL3_def isOpposite_def newHeadOf_def wrapCoord_def)

subsection \<open>Fruit exhaustion\<close>




subsection \<open>Power-up pickup\<close>

text \<open>
  The part of the pickup that works: with no reveal running, the reveal counter becomes
  the length of the snake after the move, and the pickup sweep is played.
\<close>

theorem pickup_sets_reveal:
  assumes "\<not> gameOver g" "\<not> won g"
    and "\<not> (length (snake g) > 1 \<and> isOpposite nd (dir g))"
    and "snake g = h # rest"
    and "newHeadOf nd g h \<notin> set (hazards g)"
    and "newHeadOf nd g h \<notin> set (snake g)"
    and "powerUp g = Some p" and "(px p, py p) = newHeadOf nd g h"
    and "revealTurns g \<le> 0"
  shows "\<exists>g' e. doStep rnd nd g = Inr (g', e) \<and> revealTurns g' = int (length (snake g')) \<and>
           PlayPickupSweep \<in> set e"
  using assms
  by (auto simp: doStep_def Let_def advance_def countdown_reveal pickup_reveal
      winCheck_fx_mono)

theorem pickup_sets_reveal_witness:
  "powerUp pickupState = Some \<lparr>px = 2, py = 1, ttl = 4\<rparr> \<and> revealTurns pickupState = 0 \<and>
   (\<exists>g' e. doStep rndHalf RIGHT pickupState = Inr (g', e) \<and>
      revealTurns g' = int (length (snake g')) \<and> PlayPickupSweep \<in> set e)"
  using pickup_sets_reveal [of pickupState RIGHT "(1, 1)" "tl (snake pickupState)"
      "\<lparr>px = 2, py = 1, ttl = 4\<rparr>" rndHalf]
  by (simp add: pickupState_def newHeadOf_def wrapCoord_def isOpposite_def)

text \<open>
  C5. A power-up the head moves onto should be gone after the step. The pickup block
  queues \<open>setPowerUp null\<close>, but the countdown block that follows still reads the old
  power-up from \<open>powerUpRef.current\<close> and queues it again with \<open>ttl - 1\<close>, and the later
  update wins: with \<open>ttl = 4\<close> the power-up is still on the board after the pickup,
  with \<open>ttl = 3\<close>.
\<close>

theorem pickup_leaves_powerUp:
  "map_sum id (powerUp \<circ> fst) (doStep rndHalf RIGHT pickupState)
     = Inr (Some \<lparr>px = 2, py = 1, ttl = 3\<rparr>)"
  by (simp add: step_defs pickupState_def)

text \<open>
  C7. In a step that picks a power-up up, no new power-up spawns: whatever the level, the
  snake length, the reveal counter, the free cells and the random draws, the power-up
  left after the step is the one the countdown block queued for the old power-up, on the
  old cell.
\<close>

theorem no_spawn_on_pickup:
  assumes "\<not> gameOver g" "\<not> won g"
    and "\<not> (length (snake g) > 1 \<and> isOpposite nd (dir g))"
    and "snake g = h # rest"
    and "newHeadOf nd g h \<notin> set (hazards g)"
    and "newHeadOf nd g h \<notin> set (snake g)"
    and "powerUp g = Some p" and "(px p, py p) = newHeadOf nd g h"
  shows "\<exists>g' e. doStep rnd nd g = Inr (g', e) \<and> powerUp g' = afterDecay (powerUp g) \<and>
           cellOf (powerUp g') \<subseteq> {newHeadOf nd g h}"
proof -
  have "cellOf (afterDecay (powerUp g)) \<subseteq> {newHeadOf nd g h}"
    using cellOf_afterDecay [of "powerUp g"] assms(7,8) by (auto simp: cellOf_def)
  then show ?thesis using assms
    by (auto simp: doStep_def Let_def advance_def spawnPowerUp_blocked countdown_powerUp)
qed

theorem no_spawn_on_pickup_witness:
  "snake pickupState = (1, 1) # tl (snake pickupState) \<and>
   powerUp pickupState = Some \<lparr>px = 2, py = 1, ttl = 4\<rparr> \<and>
   newHeadOf RIGHT pickupState (1, 1) = (2, 1) \<and>
   (\<exists>g' e. doStep rnd0 RIGHT pickupState = Inr (g', e) \<and>
      powerUp g' = afterDecay (Some \<lparr>px = 2, py = 1, ttl = 4\<rparr>) \<and>
      cellOf (powerUp g') \<subseteq> {(2, 1)})"
  using no_spawn_on_pickup [of pickupState RIGHT "(1, 1)" "tl (snake pickupState)"
      "\<lparr>px = 2, py = 1, ttl = 4\<rparr>" rnd0]
  by (simp add: pickupState_def newHeadOf_def wrapCoord_def isOpposite_def)

subsection \<open>The win re-check\<close>

text \<open>
  The threshold test of a step that is neither rejected nor lethal. The cells counted
  are those of the snake after the move, the hazards, the fruit and the power-up left by
  the countdown; the source counts the power-up of the start of the turn, which covers
  at least those cells. If fewer than \<open>ceil (0.15 * cols * rows)\<close> cells are empty, the
  step sets \<open>won\<close> and plays the win jingle. The threshold is taken over the reals; on
  the boards of levels 1 to 10 the double arithmetic of the source gives the same value.
\<close>

theorem win_recheck_threshold:
  assumes "\<not> gameOver g" "\<not> won g"
    and "\<not> (length (snake g) > 1 \<and> isOpposite nd (dir g))"
    and "snake g = h # rest"
    and "newHeadOf nd g h \<notin> set (hazards g)"
    and "newHeadOf nd g h \<notin> set (snake g)"
    and "doStep rnd nd g = Inr (g', e)"
    and "cols g * rows g
           - int (card (set (snake g') \<union> set (hazards g) \<union> set_option (fruit g')
                         \<union> cellOf (afterDecay (powerUp g))))
         < \<lceil>of_int (cols g * rows g) * (0.15 :: real)\<rceil>"
  shows "won g' \<and> PlayWin \<in> set e"
proof -
  define nh where "nh = newHeadOf nd g h"
  define t0 where "t0 = \<lparr>st = g, fx = [], draws = 0, newSnake = nh # snake g,
        nextFruitPos = fruit g, pickedUpThisStep = False\<rparr>"
  define t1 where "t1 = fruitPhase rnd g nh t0"
  define t3 where "t3 = countdownPhase g (pickupPhase g nh t1)"
  have g': "g' = st (advance rnd nd g nh)" and e: "e = fx (advance rnd nd g nh)"
    using assms(1-7) by (auto simp: doStep_def Let_def nh_def)
  have sn: "snake g' = newSnake t3"
    by (simp add: g' advance_def Let_def t3_def t1_def t0_def)
  have fr: "fruit g' = fruit (st t1)"
    by (simp add: g' advance_def Let_def t1_def t0_def)
  have t4: "advance rnd nd g nh =
      (let t4 = winCheck g t3;
           t5 = maybeSpawnPowerUp rnd g nh (newSnake t4) (cols g) (rows g) (pickedUpThisStep t4) t4;
           t6 = maybeSpawnHazard rnd g nh (newSnake t5) (cols g) (rows g) t5
       in t6\<lparr>st := (st t6)\<lparr>snake := newSnake t6, dir := nd\<rparr>\<rparr>)"
    by (simp add: advance_def Let_def t3_def t1_def t0_def)
  have fin: "won (st (winCheck g t3)) \<and> PlayWin \<in> set (fx (winCheck g t3))
      \<Longrightarrow> won g' \<and> PlayWin \<in> set e"
    by (simp add: g' e t4 Let_def)
  have "nextFruitPos t0 = fruit (st t0)" by (simp add: t0_def)
  from fruitPhase_next [OF this assms(2), of rnd nh]
  consider (same) "nextFruitPos t1 = fruit (st t1)"
    | (won) "won (st t1)" "PlayWin \<in> set (fx t1)"
    unfolding t1_def by blast
  then show ?thesis
  proof cases
    case won
    have "won (st t3)" using won(1) by (simp add: t3_def)
    moreover have "PlayWin \<in> set (fx t3)"
      using won(2) by (simp add: t3_def pickupPhase_fx_mono)
    ultimately show ?thesis
      by (intro fin) (simp add: winCheck_won_mono winCheck_fx_mono)
  next
    case same
    have nf: "nextFruitPos t3 = fruit g'" by (simp add: t3_def same fr)
    have sub: "set (snake g') \<union> set (hazards g) \<union> set_option (fruit g')
                 \<union> cellOf (afterDecay (powerUp g))
               \<subseteq> set (newSnake t3) \<union> set (hazards g) \<union> set_option (nextFruitPos t3)
                 \<union> cellOf (powerUp g)"
      using cellOf_afterDecay [of "powerUp g"] by (auto simp: sn nf)
    have "card (set (snake g') \<union> set (hazards g) \<union> set_option (fruit g')
                 \<union> cellOf (afterDecay (powerUp g)))
          \<le> card (set (newSnake t3) \<union> set (hazards g) \<union> set_option (nextFruitPos t3)
                 \<union> cellOf (powerUp g))"
      by (rule card_mono [OF _ sub]) simp
    with assms(8)
    have "cols g * rows g
           - int (card (set (newSnake t3) \<union> set (hazards g) \<union> set_option (nextFruitPos t3)
                         \<union> cellOf (powerUp g)))
         < \<lceil>of_int (cols g * rows g) * (0.15 :: real)\<rceil>"
      by linarith
    from winCheck_triggers [OF assms(2) this] show ?thesis by (rule fin)
  qed
qed

theorem win_recheck_threshold_witness:
  "\<exists>g'. doStep rndHalf DOWN lastFruit = Inr (g', [PlayFruit, PlayWin]) \<and>
      length (snake g') = 7 \<and> fruit g' = Some (1, 1) \<and> won g'"
proof -
  have "\<exists>g'. doStep rndHalf DOWN lastFruit = Inr (g', [PlayFruit, PlayWin]) \<and>
          snake g' = [(0, 2), (0, 1), (0, 0), (1, 0), (2, 0), (2, 1), (2, 2)] \<and>
          fruit g' = Some (1, 1)"
    by (simp add: step_defs lastFruit_def rndHalf_def tryRandom_numeral)
  then obtain g' where step: "doStep rndHalf DOWN lastFruit = Inr (g', [PlayFruit, PlayWin])"
    and sn: "snake g' = [(0, 2), (0, 1), (0, 0), (1, 0), (2, 0), (2, 1), (2, 2)]"
    and fr: "fruit g' = Some (1, 1)"
    by blast
  have "won g' \<and> PlayWin \<in> set [PlayFruit, PlayWin]"
    by (rule win_recheck_threshold [OF _ _ _ _ _ _ step, of "(0, 1)" "tl (snake lastFruit)"])
       (simp_all add: lastFruit_def isOpposite_def newHeadOf_def wrapCoord_def sn fr
          cellOf_def afterDecay_def)
  with step sn fr show ?thesis by auto
qed


subsection \<open>The time to live of a new power-up\<close>

text \<open>
  C9. A power-up that spawns in a step gets \<open>ttl = max 1 (ceil d) + 3\<close>, where \<open>d\<close> is the
  Euclidean distance from the head (the new head of this step) to the spawn cell. The
  source computes \<open>max 1 (ceil d + 3)\<close>; the spawn cell is never a snake cell, so
  \<open>d \<ge> 1\<close> and both expressions are \<open>ceil d + 3\<close>. The distance is taken over the reals.
\<close>

theorem spawn_ttl_formula:
  assumes "powerUp g = None"
    and "doStep rnd nd g = Inr (g', e)"
    and "powerUp g' = Some p"
  shows "snake g' \<noteq> [] \<and>
         ttl p = max 1 \<lceil>hypot (px p - fst (hd (snake g'))) (py p - snd (hd (snake g')))\<rceil> + 3"
  using assms(2)
proof (cases rule: doStep_cases)
  case ignored
  with assms(1,3) show ?thesis by simp
next
  case (died h rest)
  with assms(1,3) show ?thesis by (simp add: loseLifeAt_def Let_def split: if_splits)
next
  case (moved h rest)
  define nh where "nh = newHeadOf nd g h"
  define t0 where "t0 = \<lparr>st = g, fx = [], draws = 0, newSnake = nh # h # rest,
        nextFruitPos = fruit g, pickedUpThisStep = False\<rparr>"
  define t4 where "t4 = winCheck g (countdownPhase g (pickupPhase g nh (fruitPhase rnd g nh t0)))"
  define t5 where "t5 = maybeSpawnPowerUp rnd g nh (newSnake t4) (cols g) (rows g)
      (pickedUpThisStep t4) t4"
  have g': "g' = st (advance rnd nd g nh)" using moved(6) by (simp add: nh_def)
  have "powerUp g' = powerUp (st t5)"
    by (simp add: g' advance_def Let_def t5_def t4_def t0_def moved(1))
  then have sp: "powerUp (st t5) = Some p" using assms(3) by simp
  have none: "powerUp (st t4) = None"
    by (simp add: t4_def countdown_powerUp pickup_powerUp_None assms(1) t0_def)
  have sn: "snake g' = newSnake t4"
    by (simp add: g' advance_def Let_def t4_def t0_def moved(1))
  have hd: "newSnake t4 \<noteq> [] \<and> hd (newSnake t4) = nh"
    by (simp add: t4_def t0_def fruitPhase_newSnake)
  then have mem: "nh \<in> set (newSnake t4)" by (cases "newSnake t4") auto
  from spawn_ttl [OF none sp [unfolded t5_def]]
  have notin: "(px p, py p) \<notin> set (newSnake t4)"
    and ttl: "ttl p = max 1 (\<lceil>hypot (px p - fst nh) (py p - snd nh)\<rceil> + 3)"
    by simp_all
  from notin mem have "(px p, py p) \<noteq> nh" by auto
  then have "(px p - fst nh, py p - snd nh) \<noteq> (0, 0)"
    by (cases nh) auto
  then have "1 \<le> hypot (px p - fst nh) (py p - snd nh)" by (rule hypot_ge_1)
  then have "1 \<le> \<lceil>hypot (px p - fst nh) (py p - snd nh)\<rceil>" by linarith
  with ttl hd show ?thesis by (simp add: sn)
qed

theorem spawn_ttl_formula_witness:
  "powerUp spawnState = None \<and>
   (\<exists>g' e p. doStep rnd0 LEFT spawnState = Inr (g', e) \<and> powerUp g' = Some p \<and>
      (px p, py p) = (0, 0) \<and> hd (snake g') = (1, 0) \<and> ttl p = 4 \<and>
      ttl p = max 1 \<lceil>hypot (px p - fst (hd (snake g'))) (py p - snd (hd (snake g')))\<rceil> + 3)"
proof -
  have none: "powerUp spawnState = None" by (simp add: spawnState_def)
  have "\<exists>g' e. doStep rnd0 LEFT spawnState = Inr (g', e) \<and>
          powerUp g' = Some \<lparr>px = 0, py = 0, ttl = 4\<rparr> \<and> hd (snake g') = (1, 0)"
    by (simp add: step_defs spawnState_def rnd0_def tryRandom_numeral hypot_def)
  then obtain g' e where step: "doStep rnd0 LEFT spawnState = Inr (g', e)"
    and pw: "powerUp g' = Some \<lparr>px = 0, py = 0, ttl = 4\<rparr>" and h: "hd (snake g') = (1, 0)"
    by blast
  from spawn_ttl_formula [OF none step pw]
  have "ttl \<lparr>px = 0, py = 0, ttl = 4\<rparr> =
          max 1 \<lceil>hypot (px \<lparr>px = 0, py = 0, ttl = 4\<rparr> - fst (hd (snake g')))
                       (py \<lparr>px = 0, py = 0, ttl = 4\<rparr> - snd (hd (snake g')))\<rceil> + 3"
    by simp
  with none step pw h show ?thesis by auto
qed

subsection \<open>The opening scenario\<close>

text \<open>
  C10 (as amended). The board is 5 by 5 at level 3 (\<open>sizeForLevel 1\<close> is 3). On the
  5 by 5 board with a snake of length 1 on the centre cell \<open>(2, 2)\<close>, heading RIGHT, no
  fruit and no hazard on \<open>(3, 2)\<close>, a step RIGHT gives the snake \<open>[(3, 2)]\<close> and leaves
  the score unchanged.
\<close>

theorem level3_first_step:
  assumes "level g = 3" "cols g = sizeForLevel (level g)" "rows g = sizeForLevel (level g)"
    and "snake g = [(2, 2)]" "dir g = RIGHT"
    and "fruit g \<noteq> Some (3, 2)" "(3, 2) \<notin> set (hazards g)"
    and "\<not> gameOver g" "\<not> won g"
  shows "cols g = 5 \<and> rows g = 5 \<and>
         (\<exists>g' e. doStep rnd RIGHT g = Inr (g', e) \<and> snake g' = [(3, 2)] \<and> score g' = score g)"
proof -
  have sz: "cols g = 5" "rows g = 5" using assms(1-3) by (simp_all add: sizeForLevel_def)
  have nh: "newHeadOf RIGHT g (2, 2) = (3, 2)"
    by (simp add: newHeadOf_def wrapCoord_def sz)
  show ?thesis using assms(4-9) sz
    by (simp add: doStep_def Let_def nh advance_snake advance_score)
qed

theorem level3_first_step_witness:
  "level startL3 = 3 \<and> cols startL3 = sizeForLevel (level startL3) \<and>
   snake startL3 = [(2, 2)] \<and> dir startL3 = RIGHT \<and>
   (\<exists>g' e. doStep rndHalf RIGHT startL3 = Inr (g', e) \<and> snake g' = [(3, 2)] \<and> score g' = 0)"
  using level3_first_step [of startL3 rndHalf]
  by (simp add: startL3_def sizeForLevel_def)

text \<open>At level 1 the board is 3 by 3, and a step RIGHT from \<open>(2, 2)\<close> wraps to \<open>(0, 2)\<close>.\<close>

theorem level1_board_is_3x3:
  "level level1At22 = 1 \<and> cols level1At22 = sizeForLevel 1 \<and> sizeForLevel 1 = 3 \<and>
   sizeForLevel 3 = 5 \<and>
   map_sum id (snake \<circ> fst) (doStep rndHalf RIGHT level1At22) = Inr [(0, 2)]"
  by (simp add: step_defs level1At22_def sizeForLevel_def rndHalf_def)

end
